theory Spec2Isabelle
  imports Main
begin

section \<open>Values, records and arrays\<close>

text \<open>
  A \<^verbatim>\<open>go.ObjectData\<close> is a plain object; the map holds its own string-named
  properties. Property values are the primitive values the application stores (numbers
  are the integers used as keys and parents, strings, booleans). A \<^verbatim>\<open>go.Key\<close> is a
  string, a number or \<^verbatim>\<open>undefined\<close>, so it is such a value too, and a JavaScript
  \<^verbatim>\<open>Map\<close> tells a number key from a string key.
\<close>

datatype jsval = VUndefined | VNum int | VStr string | VBool bool

type_synonym Key = jsval

type_synonym ObjectData = "string \<rightharpoonup> jsval"

text \<open>
  \<^verbatim>\<open>n.key\<close>, the only property the handlers read: the object's own property, and
  \<^verbatim>\<open>undefined\<close> when it has none (\<open>Object.prototype\<close> defines no \<open>key\<close>).
\<close>

definition key :: "ObjectData \<Rightarrow> Key" where
  "key n = (case n ''key'' of None \<Rightarrow> VUndefined | Some v \<Rightarrow> v)"

text \<open>
  \<^verbatim>\<open>data[path] = value\<close> with a primitive value. The assignment creates or replaces
  the own property of that name, for the names that \<open>Object.prototype\<close> defines as data
  properties too. The one name with a setter on \<open>Object.prototype\<close> is \<open>__proto__\<close>:
  there the assignment runs that setter, which ignores a value that is neither an object
  nor \<^verbatim>\<open>null\<close>, and the object is left as it was.
\<close>

definition setProperty :: "ObjectData \<Rightarrow> string \<Rightarrow> jsval \<Rightarrow> ObjectData" where
  "setProperty n path v = (if path = ''__proto__'' then n else n(path \<mapsto> v))"

text \<open>
  \<^verbatim>\<open>Array<go.ObjectData>\<close>: a slot holds a record or is empty (\<open>None\<close>). Reading past
  the end or from an empty slot gives \<^verbatim>\<open>undefined\<close>; writing past the end extends the
  array and leaves the slots in between empty.
\<close>

type_synonym NodeArray = "ObjectData option list"

definition arrayGet :: "NodeArray \<Rightarrow> nat \<Rightarrow> ObjectData option" where
  "arrayGet arr idx = (if idx < length arr then arr ! idx else None)"

definition arraySet :: "NodeArray \<Rightarrow> nat \<Rightarrow> ObjectData \<Rightarrow> NodeArray" where
  "arraySet arr idx n =
     (if idx < length arr then arr[idx := Some n]
      else arr @ replicate (idx - length arr) None @ [Some n])"

definition slotKey :: "NodeArray \<Rightarrow> nat \<Rightarrow> Key option" where
  "slotKey arr idx = map_option key (arrayGet arr idx)"

fun keysOf :: "NodeArray \<Rightarrow> Key list" where
  "keysOf [] = []"
| "keysOf (None # ns) = keysOf ns"
| "keysOf (Some n # ns) = key n # keysOf ns"

section \<open>The application component (App.tsx)\<close>

text \<open>
  \<^verbatim>\<open>selectedData: go.ObjectData | null\<close>. The selection handler stores whatever the array
  read gives, so the value \<^verbatim>\<open>undefined\<close> is a third possibility.
\<close>

datatype selected = Null | Undefined | Data ObjectData

record AppState =
  nodeDataArray :: NodeArray
  modelData :: ObjectData
  selectedData :: selected
  skipsDiagramUpdate :: bool

record App =
  state :: AppState
  mapNodeKeyIdx :: "Key \<rightharpoonup> nat"

datatype error = TypeError

text \<open>
  \<^verbatim>\<open>nodeArr.forEach((n, idx) => this.mapNodeKeyIdx.set(n.key, idx))\<close>: \<open>forEach\<close> visits the
  slots in order with their positions and skips the empty ones; a later \<open>set\<close> of the same
  key replaces the earlier one.
\<close>

fun forEachSet :: "(Key \<rightharpoonup> nat) \<Rightarrow> nat \<Rightarrow> NodeArray \<Rightarrow> (Key \<rightharpoonup> nat)" where
  "forEachSet m idx [] = m"
| "forEachSet m idx (None # ns) = forEachSet m (Suc idx) ns"
| "forEachSet m idx (Some n # ns) = forEachSet (m(key n \<mapsto> idx)) (Suc idx) ns"

text \<open>\<^verbatim>\<open>refreshNodeIndex\<close>: \<^verbatim>\<open>this.mapNodeKeyIdx.clear()\<close>, then the \<open>forEach\<close>.\<close>

definition refreshNodeIndex :: "App \<Rightarrow> NodeArray \<Rightarrow> App" where
  "refreshNodeIndex this nodeArr =
     this\<lparr>mapNodeKeyIdx := forEachSet Map.empty 0 nodeArr\<rparr>"

text \<open>
  \<^verbatim>\<open>this.setState(produce(recipe))\<close>: the recipe works on a draft of the state. The draft
  is copy-on-write: a record reached through \<open>draft.selectedData\<close> is changed on its own
  copy, so the record of the same key in \<open>draft.nodeDataArray\<close> changes only when it is
  assigned. That is the value semantics of the functions below. A recipe that throws
  publishes no state.
\<close>

definition setState :: "(AppState \<Rightarrow> error + AppState) \<Rightarrow> App \<Rightarrow> error + App" where
  "setState recipe this =
     (case recipe (state this) of
        Inl e \<Rightarrow> Inl e
      | Inr draft \<Rightarrow> Inr (this\<lparr>state := draft\<rparr>))"

subsection \<open>The diagram's parts, as the handlers see them\<close>

text \<open>
  A \<^verbatim>\<open>go.Node\<close> carries its data record, its named visual objects (the name and the
  text each shows; \<open>findObject\<close> gives \<^verbatim>\<open>null\<close> for a name no object has) and its tree
  children. A \<^verbatim>\<open>go.Link\<close> has the node it leads to, or \<^verbatim>\<open>null\<close>. A selection can also
  hold a part that is neither.
\<close>

datatype GoNode = GoNode (data: ObjectData) (objects: "string \<rightharpoonup> string") (treeChildren: "GoNode list")

datatype Part = Node GoNode | Link (toNode: "GoNode option") | PlainPart

record DiagramEvent =
  name :: string
  subject :: "Part list"

definition first :: "'a list \<Rightarrow> 'a option" where
  "first xs = (case xs of [] \<Rightarrow> None | x # _ \<Rightarrow> Some x)"

text \<open>\<^verbatim>\<open>sel.key\<close>: the key of the node's data.\<close>

definition nodeKey :: "GoNode \<Rightarrow> Key" where
  "nodeKey nd = key (data nd)"

subsection \<open>handleDiagramEvent\<close>

definition selectionRecipe :: "App \<Rightarrow> Part option \<Rightarrow> AppState \<Rightarrow> error + AppState" where
  "selectionRecipe this sel draft =
     (case sel of
        Some (Node nd) \<Rightarrow>
          (case mapNodeKeyIdx this (nodeKey nd) of
             None \<Rightarrow> Inr draft
           | Some idx \<Rightarrow>
               if idx \<ge> 0 then
                 Inr (draft\<lparr>selectedData :=
                   (case arrayGet (nodeDataArray draft) idx of
                      None \<Rightarrow> Undefined
                    | Some nd' \<Rightarrow> Data nd')\<rparr>)
               else Inr draft)
      | Some _ \<Rightarrow> Inr draft
      | None \<Rightarrow> Inr (draft\<lparr>selectedData := Null\<rparr>))"

definition handleDiagramEvent :: "App \<Rightarrow> DiagramEvent \<Rightarrow> error + App" where
  "handleDiagramEvent this e =
     (if name e = ''ChangedSelection''
      then setState (selectionRecipe this (first (subject e))) this
      else Inr this)"

subsection \<open>handleInputChange\<close>

text \<open>
  \<^verbatim>\<open>const data = draft.selectedData as go.ObjectData; data[path] = value;\<close> The cast
  checks nothing: writing a property of \<^verbatim>\<open>null\<close> or \<^verbatim>\<open>undefined\<close> throws a
  \<open>TypeError\<close>, whatever the path. On a record the write is \<open>setProperty\<close>.
\<close>

definition inputRecipe :: "App \<Rightarrow> string \<Rightarrow> string \<Rightarrow> bool \<Rightarrow> AppState \<Rightarrow> error + AppState" where
  "inputRecipe this path val isBlur draft =
     (case selectedData draft of
        Null \<Rightarrow> Inl TypeError
      | Undefined \<Rightarrow> Inl TypeError
      | Data d \<Rightarrow>
          (let data = setProperty d path (VStr val);
               draft1 = draft\<lparr>selectedData := Data data\<rparr>
           in if isBlur then
                (case mapNodeKeyIdx this (key data) of
                   None \<Rightarrow> Inr draft1
                 | Some idx \<Rightarrow>
                     if idx \<ge> 0 then
                       Inr (draft1\<lparr>nodeDataArray := arraySet (nodeDataArray draft1) idx data,
                                   skipsDiagramUpdate := False\<rparr>)
                     else Inr draft1)
              else Inr draft1))"

definition handleInputChange :: "App \<Rightarrow> string \<Rightarrow> string \<Rightarrow> bool \<Rightarrow> error + App" where
  "handleInputChange this path val isBlur = setState (inputRecipe this path val isBlur) this"

subsection \<open>render\<close>

text \<open>
  \<^verbatim>\<open>if (selectedData !== null) { inspector = <SelectionInspector ... /> }\<close>: the
  inspector, which is what calls \<open>handleInputChange\<close>, is on the page only while
  \<open>selectedData\<close> is not \<open>null\<close>.
\<close>

definition rendersInspector :: "App \<Rightarrow> bool" where
  "rendersInspector this \<longleftrightarrow> selectedData (state this) \<noteq> Null"

subsection \<open>The constructor\<close>

definition initialNodeDataArray :: NodeArray where
  "initialNodeDataArray =
    [Some [''key'' \<mapsto> VNum 1, ''name'' \<mapsto> VStr ''Stella Payne Diaz'', ''title'' \<mapsto> VStr ''CEO''],
     Some [''key'' \<mapsto> VNum 2, ''name'' \<mapsto> VStr ''Luke Warm'', ''title'' \<mapsto> VStr ''VP Marketing/Sales'', ''parent'' \<mapsto> VNum 1],
     Some [''key'' \<mapsto> VNum 3, ''name'' \<mapsto> VStr ''Meg Meehan Hoffa'', ''title'' \<mapsto> VStr ''Sales'', ''parent'' \<mapsto> VNum 2],
     Some [''key'' \<mapsto> VNum 4, ''name'' \<mapsto> VStr ''Peggy Flaming'', ''title'' \<mapsto> VStr ''VP Engineering'', ''parent'' \<mapsto> VNum 1],
     Some [''key'' \<mapsto> VNum 5, ''name'' \<mapsto> VStr ''Saul Wellingood'', ''title'' \<mapsto> VStr ''Manufacturing'', ''parent'' \<mapsto> VNum 4],
     Some [''key'' \<mapsto> VNum 6, ''name'' \<mapsto> VStr ''Al Ligori'', ''title'' \<mapsto> VStr ''Marketing'', ''parent'' \<mapsto> VNum 2],
     Some [''key'' \<mapsto> VNum 7, ''name'' \<mapsto> VStr ''Dot Stubadd'', ''title'' \<mapsto> VStr ''Sales Rep'', ''parent'' \<mapsto> VNum 3],
     Some [''key'' \<mapsto> VNum 8, ''name'' \<mapsto> VStr ''Les Ismore'', ''title'' \<mapsto> VStr ''Project Mgr'', ''parent'' \<mapsto> VNum 5],
     Some [''key'' \<mapsto> VNum 9, ''name'' \<mapsto> VStr ''April Lynn Parris'', ''title'' \<mapsto> VStr ''Events Mgr'', ''parent'' \<mapsto> VNum 6],
     Some [''key'' \<mapsto> VNum 10, ''name'' \<mapsto> VStr ''Xavier Breath'', ''title'' \<mapsto> VStr ''Engineering'', ''parent'' \<mapsto> VNum 4],
     Some [''key'' \<mapsto> VNum 11, ''name'' \<mapsto> VStr ''Anita Hammer'', ''title'' \<mapsto> VStr ''Process'', ''parent'' \<mapsto> VNum 5],
     Some [''key'' \<mapsto> VNum 12, ''name'' \<mapsto> VStr ''Billy Aiken'', ''title'' \<mapsto> VStr ''Software'', ''parent'' \<mapsto> VNum 10],
     Some [''key'' \<mapsto> VNum 13, ''name'' \<mapsto> VStr ''Stan Wellback'', ''title'' \<mapsto> VStr ''Testing'', ''parent'' \<mapsto> VNum 10],
     Some [''key'' \<mapsto> VNum 14, ''name'' \<mapsto> VStr ''Marge Innovera'', ''title'' \<mapsto> VStr ''Hardware'', ''parent'' \<mapsto> VNum 10],
     Some [''key'' \<mapsto> VNum 15, ''name'' \<mapsto> VStr ''Evan Elpus'', ''title'' \<mapsto> VStr ''Quality'', ''parent'' \<mapsto> VNum 5],
     Some [''key'' \<mapsto> VNum 16, ''name'' \<mapsto> VStr ''Lotta B. Essen'', ''title'' \<mapsto> VStr ''Sales Rep'', ''parent'' \<mapsto> VNum 3],
     Some [''key'' \<mapsto> VNum 17, ''name'' \<mapsto> VStr ''Joaquin Closet'', ''title'' \<mapsto> VStr ''Wardrobe Assistant'', ''parent'' \<mapsto> VNum 1],
     Some [''key'' \<mapsto> VNum 18, ''name'' \<mapsto> VStr ''Hannah Twomey'', ''title'' \<mapsto> VStr ''Engineering Assistant'', ''parent'' \<mapsto> VNum 10, ''isAssistant'' \<mapsto> VBool True]]"

definition initialState :: AppState where
  "initialState =
     \<lparr>nodeDataArray = initialNodeDataArray,
      modelData = [''canRelink'' \<mapsto> VBool False],
      selectedData = Null,
      skipsDiagramUpdate = False\<rparr>"

definition constructor :: App where
  "constructor =
     refreshNodeIndex \<lparr>state = initialState, mapNodeKeyIdx = Map.empty\<rparr> (nodeDataArray initialState)"

section \<open>The diagram wrapper: the SelectionDeleting listener\<close>

text \<open>
  Of the diagramming engine the listener uses the transaction calls only. The diagram
  keeps the names of the transactions that are started and not yet committed (the
  innermost first) and the names of those it has committed. Committing a nested
  transaction only closes it; a transaction is recorded as committed when the outermost
  one is committed. The engine raises \<open>SelectionDeleting\<close> inside its own transaction
  \<open>Delete\<close>.
\<close>

record Diagram =
  nestedTransactionNames :: "string list"
  committedTransactions :: "string list"

definition startTransaction :: "Diagram \<Rightarrow> string \<Rightarrow> Diagram" where
  "startTransaction myDiagram tname =
     myDiagram\<lparr>nestedTransactionNames := tname # nestedTransactionNames myDiagram\<rparr>"

definition commitTransaction :: "Diagram \<Rightarrow> string \<Rightarrow> Diagram" where
  "commitTransaction myDiagram tname =
     (case nestedTransactionNames myDiagram of
        [] \<Rightarrow> myDiagram
      | _ # outer \<Rightarrow>
          if outer = [] then
            myDiagram\<lparr>nestedTransactionNames := [],
                      committedTransactions := committedTransactions myDiagram @ [tname]\<rparr>
          else myDiagram\<lparr>nestedTransactionNames := outer\<rparr>)"

definition findObject :: "GoNode \<Rightarrow> string \<Rightarrow> string option" where
  "findObject nd oname = objects nd oname"

text \<open>
  \<^verbatim>\<open>bossText.text = ""\<close> writes the text of the visual object. No two-way binding is
  declared on an object of that name, so the write does not reach the data record.
\<close>

definition setText :: "GoNode \<Rightarrow> string \<Rightarrow> string \<Rightarrow> GoNode" where
  "setText nd oname t = GoNode (data nd) ((objects nd)(oname \<mapsto> t)) (treeChildren nd)"

text \<open>
  The \<^verbatim>\<open>while (it.next())\<close> loop over the children. The flag is \<open>True\<close> when the
  iterator ran out and \<open>False\<close> when the listener left through
  \<^verbatim>\<open>if (bossText === null) return;\<close>.
\<close>

fun clearBosses :: "GoNode list \<Rightarrow> GoNode list \<times> bool" where
  "clearBosses [] = ([], True)"
| "clearBosses (child # rest) =
     (case findObject child ''boss'' of
        None \<Rightarrow> (child # rest, False)
      | Some bossText \<Rightarrow>
          (case clearBosses rest of
             (rest', finished) \<Rightarrow> (setText child ''boss'' [] # rest', finished)))"

datatype completion = Returned | Threw error

text \<open>
  The listener gives back how it ended, the diagram and the first selected part with the
  texts it has written.
\<close>

definition selectionDeleting :: "Diagram \<Rightarrow> DiagramEvent \<Rightarrow> completion \<times> Diagram \<times> Part option" where
  "selectionDeleting myDiagram e =
     (let part = first (subject e);
          started = startTransaction myDiagram ''clear boss''
      in case part of
           Some (Node nd) \<Rightarrow>
             (case clearBosses (treeChildren nd) of
                (children, True) \<Rightarrow>
                  (Returned, commitTransaction started ''clear boss'',
                   Some (Node (GoNode (data nd) (objects nd) children)))
              | (children, False) \<Rightarrow>
                  (Returned, started, Some (Node (GoNode (data nd) (objects nd) children))))
         | Some (Link None) \<Rightarrow> (Threw TypeError, started, part)
         | Some (Link (Some child)) \<Rightarrow>
             (case findObject child ''boss'' of
                None \<Rightarrow> (Returned, started, part)
              | Some bossText \<Rightarrow>
                  (Returned, commitTransaction started ''clear boss'',
                   Some (Link (Some (setText child ''boss'' [])))))
         | _ \<Rightarrow> (Returned, commitTransaction started ''clear boss'', part))"

text \<open>
  The node template of the same file names a shape and two pictures and no text block:
  a node the diagram builds from it has no object called \<open>boss\<close>.
\<close>

definition nodeTemplate :: "ObjectData \<Rightarrow> GoNode list \<Rightarrow> GoNode" where
  "nodeTemplate d children = GoNode d Map.empty children"

section \<open>Predicates and example values used in the statements\<close>

text \<open>\<^verbatim>\<open>sel instanceof go.Node\<close>.\<close>

fun isNode :: "Part \<Rightarrow> bool" where
  "isNode (Node nd) = True"
| "isNode _ = False"

text \<open>
  The index is current when it is what \<open>refreshNodeIndex\<close> builds from the node array the
  state holds now.
\<close>

definition indexCurrent :: "App \<Rightarrow> bool" where
  "indexCurrent this \<longleftrightarrow>
     mapNodeKeyIdx this = mapNodeKeyIdx (refreshNodeIndex this (nodeDataArray (state this)))"

text \<open>The events the engine sends, with the selection as their subject.\<close>

definition changedSelection :: "Part list \<Rightarrow> DiagramEvent" where
  "changedSelection sel = \<lparr>name = ''ChangedSelection'', subject = sel\<rparr>"

definition selectionDeletingEvent :: "Part list \<Rightarrow> DiagramEvent" where
  "selectionDeletingEvent sel = \<lparr>name = ''SelectionDeleting'', subject = sel\<rparr>"

text \<open>Some records of the initial node array, by name.\<close>

definition stella :: ObjectData where
  "stella = [''key'' \<mapsto> VNum 1, ''name'' \<mapsto> VStr ''Stella Payne Diaz'', ''title'' \<mapsto> VStr ''CEO'']"

definition luke :: ObjectData where
  "luke = [''key'' \<mapsto> VNum 2, ''name'' \<mapsto> VStr ''Luke Warm'', ''title'' \<mapsto> VStr ''VP Marketing/Sales'', ''parent'' \<mapsto> VNum 1]"

definition meg :: ObjectData where
  "meg = [''key'' \<mapsto> VNum 3, ''name'' \<mapsto> VStr ''Meg Meehan Hoffa'', ''title'' \<mapsto> VStr ''Sales'', ''parent'' \<mapsto> VNum 2]"

definition peggy :: ObjectData where
  "peggy = [''key'' \<mapsto> VNum 4, ''name'' \<mapsto> VStr ''Peggy Flaming'', ''title'' \<mapsto> VStr ''VP Engineering'', ''parent'' \<mapsto> VNum 1]"

definition al :: ObjectData where
  "al = [''key'' \<mapsto> VNum 6, ''name'' \<mapsto> VStr ''Al Ligori'', ''title'' \<mapsto> VStr ''Marketing'', ''parent'' \<mapsto> VNum 2]"

definition joaquin :: ObjectData where
  "joaquin = [''key'' \<mapsto> VNum 17, ''name'' \<mapsto> VStr ''Joaquin Closet'', ''title'' \<mapsto> VStr ''Wardrobe Assistant'', ''parent'' \<mapsto> VNum 1]"

text \<open>
  A node made in the diagram by the click-creating tool, from its archetype data. The
  application's index never learns its key.
\<close>

definition newPerson :: ObjectData where
  "newPerson = [''key'' \<mapsto> VNum (- 1), ''name'' \<mapsto> VStr ''(new person)'', ''title'' \<mapsto> VStr [], ''comments'' \<mapsto> VStr []]"

text \<open>The application after the node of key 2 has been selected.\<close>

definition selectedLuke :: App where
  "selectedLuke = constructor\<lparr>state := (state constructor)\<lparr>selectedData := Data luke\<rparr>\<rparr>"

text \<open>The two-record store of the specification's scenario.\<close>

definition scenarioStore :: NodeArray where
  "scenarioStore =
     [Some [''key'' \<mapsto> VNum 1, ''name'' \<mapsto> VStr ''A''],
      Some [''key'' \<mapsto> VNum 2, ''name'' \<mapsto> VStr ''B'', ''parent'' \<mapsto> VNum 1]]"

text \<open>A node that does carry a text block named \<open>boss\<close>, showing the text \<open>t\<close>.\<close>

definition withBoss :: "string \<Rightarrow> GoNode \<Rightarrow> GoNode" where
  "withBoss t nd = setText nd ''boss'' t"

definition idleDiagram :: Diagram where
  "idleDiagram = \<lparr>nestedTransactionNames = [], committedTransactions = []\<rparr>"

text \<open>The diagram as it is when the engine raises \<open>SelectionDeleting\<close>.\<close>

definition deletingDiagram :: Diagram where
  "deletingDiagram = \<lparr>nestedTransactionNames = [''Delete''], committedTransactions = []\<rparr>"

section \<open>Array slots and the index that forEach builds\<close>

lemma slotKey_Nil [simp]: "slotKey [] p = None"
  by (simp add: slotKey_def arrayGet_def)

lemma slotKey_Cons_0 [simp]: "slotKey (x # ns) 0 = map_option key x"
  by (simp add: slotKey_def arrayGet_def)

lemma slotKey_Cons_Suc [simp]: "slotKey (x # ns) (Suc p) = slotKey ns p"
  by (simp add: slotKey_def arrayGet_def)

lemma forEachSet_absent: "k \<notin> set (keysOf ns) \<Longrightarrow> forEachSet m i ns k = m k"
  by (induction m i ns rule: forEachSet.induct) auto

lemma forEachSet_sound:
  "forEachSet m i ns k = Some q \<Longrightarrow> m k = Some q \<or> (\<exists>p. q = i + p \<and> slotKey ns p = Some k)"
proof (induction m i ns rule: forEachSet.induct)
  case (1 m idx)
  then show ?case by simp
next
  case (2 m idx ns)
  then obtain p where "m k = Some q \<or> (q = Suc idx + p \<and> slotKey ns p = Some k)" by auto
  then show ?case by (metis add_Suc_shift slotKey_Cons_Suc)
next
  case (3 m idx n ns)
  from "3.prems" have "forEachSet (m(key n \<mapsto> idx)) (Suc idx) ns k = Some q" by simp
  then have "(m(key n \<mapsto> idx)) k = Some q \<or> (\<exists>p. q = Suc idx + p \<and> slotKey ns p = Some k)"
    by (rule "3.IH")
  then show ?case
  proof
    assume a: "(m(key n \<mapsto> idx)) k = Some q"
    show ?thesis
    proof (cases "k = key n")
      case True
      with a have "q = idx + 0 \<and> slotKey (Some n # ns) 0 = Some k" by simp
      then show ?thesis by blast
    next
      case False
      with a show ?thesis by simp
    qed
  next
    assume "\<exists>p. q = Suc idx + p \<and> slotKey ns p = Some k"
    then obtain p where "q = idx + Suc p \<and> slotKey (Some n # ns) (Suc p) = Some k" by auto
    then show ?thesis by blast
  qed
qed

lemma keysOf_slotKey: "k \<in> set (keysOf ns) \<longleftrightarrow> (\<exists>p. slotKey ns p = Some k)"
proof (induction ns rule: keysOf.induct)
  case 1
  then show ?case by simp
next
  case (2 ns)
  have "(\<exists>p. slotKey (None # ns) p = Some k) \<longleftrightarrow> (\<exists>p. slotKey ns p = Some k)"
  proof
    assume "\<exists>p. slotKey (None # ns) p = Some k"
    then obtain p where p: "slotKey (None # ns) p = Some k" by blast
    then show "\<exists>p. slotKey ns p = Some k" by (cases p) auto
  next
    assume "\<exists>p. slotKey ns p = Some k"
    then obtain p where "slotKey (None # ns) (Suc p) = Some k" by auto
    then show "\<exists>p. slotKey (None # ns) p = Some k" by blast
  qed
  with 2 show ?case by simp
next
  case (3 n ns)
  have "(\<exists>p. slotKey (Some n # ns) p = Some k) \<longleftrightarrow> k = key n \<or> (\<exists>p. slotKey ns p = Some k)"
  proof
    assume "\<exists>p. slotKey (Some n # ns) p = Some k"
    then obtain p where p: "slotKey (Some n # ns) p = Some k" by blast
    then show "k = key n \<or> (\<exists>p. slotKey ns p = Some k)" by (cases p) auto
  next
    assume "k = key n \<or> (\<exists>p. slotKey ns p = Some k)"
    then show "\<exists>p. slotKey (Some n # ns) p = Some k"
    proof
      assume "k = key n"
      then have "slotKey (Some n # ns) 0 = Some k" by simp
      then show ?thesis by blast
    next
      assume "\<exists>p. slotKey ns p = Some k"
      then obtain p where "slotKey (Some n # ns) (Suc p) = Some k" by auto
      then show ?thesis by blast
    qed
  qed
  with 3 show ?case by auto
qed

lemma forEachSet_present:
  "k \<in> set (keysOf ns) \<Longrightarrow> \<exists>p. forEachSet m i ns k = Some (i + p) \<and> slotKey ns p = Some k"
proof (induction m i ns rule: forEachSet.induct)
  case (1 m idx)
  then show ?case by simp
next
  case (2 m idx ns)
  then obtain p where "forEachSet m (Suc idx) ns k = Some (Suc idx + p) \<and> slotKey ns p = Some k"
    by auto
  then have "forEachSet m idx (None # ns) k = Some (idx + Suc p) \<and> slotKey (None # ns) (Suc p) = Some k"
    by simp
  then show ?case by blast
next
  case (3 m idx n ns)
  show ?case
  proof (cases "k \<in> set (keysOf ns)")
    case True
    with 3 obtain p where
      "forEachSet (m(key n \<mapsto> idx)) (Suc idx) ns k = Some (Suc idx + p) \<and> slotKey ns p = Some k"
      by blast
    then have "forEachSet m idx (Some n # ns) k = Some (idx + Suc p)
        \<and> slotKey (Some n # ns) (Suc p) = Some k"
      by simp
    then show ?thesis by blast
  next
    case False
    with 3 have kn: "k = key n" by simp
    from False have "forEachSet (m(key n \<mapsto> idx)) (Suc idx) ns k = (m(key n \<mapsto> idx)) k"
      by (rule forEachSet_absent)
    with kn have "forEachSet m idx (Some n # ns) k = Some (idx + 0) \<and> slotKey (Some n # ns) 0 = Some k"
      by simp
    then show ?thesis by blast
  qed
qed

lemma forEachSet_distinct:
  "distinct (keysOf ns) \<Longrightarrow> slotKey ns p = Some k \<Longrightarrow> forEachSet m i ns k = Some (i + p)"
proof (induction m i ns arbitrary: p rule: forEachSet.induct)
  case (1 m idx)
  then show ?case by simp
next
  case (2 m idx ns)
  then show ?case by (cases p) auto
next
  case (3 m idx n ns)
  show ?case
  proof (cases p)
    case 0
    with 3 have kn: "k = key n" and "k \<notin> set (keysOf ns)" by auto
    then show ?thesis using 0 by (simp add: forEachSet_absent)
  next
    case (Suc p')
    from "3.prems" Suc have "distinct (keysOf ns)" and "slotKey ns p' = Some k" by simp_all
    then have "forEachSet (m(key n \<mapsto> idx)) (Suc idx) ns k = Some (Suc idx + p')"
      by (rule "3.IH")
    with Suc show ?thesis by simp
  qed
qed

lemma forEachSet_cong:
  "map (map_option key) ns = map (map_option key) ns' \<Longrightarrow> forEachSet m i ns = forEachSet m i ns'"
proof (induction m i ns arbitrary: ns' rule: forEachSet.induct)
  case (1 m idx)
  then show ?case by simp
next
  case (2 m idx ns)
  then obtain ms where "ns' = None # ms" "map (map_option key) ns = map (map_option key) ms"
    by (cases ns') auto
  with 2 show ?case by simp
next
  case (3 m idx n ns)
  from "3.prems" obtain x ms where x: "ns' = x # ms" "map_option key x = Some (key n)"
      "map (map_option key) ns = map (map_option key) ms"
    by (cases ns') (auto simp: eq_commute [of "Some (key n)"])
  then obtain n' where n': "x = Some n'" "key n' = key n"
    by (cases x) auto
  from x(3) have "forEachSet (m(key n \<mapsto> idx)) (Suc idx) ns = forEachSet (m(key n \<mapsto> idx)) (Suc idx) ms"
    by (rule "3.IH")
  with x(1) n' show ?case by simp
qed

lemma mapNodeKeyIdx_refresh [simp]:
  "mapNodeKeyIdx (refreshNodeIndex this nodeArr) = forEachSet Map.empty 0 nodeArr"
  by (simp add: refreshNodeIndex_def)

lemma state_refresh [simp]: "state (refreshNodeIndex this nodeArr) = state this"
  by (simp add: refreshNodeIndex_def)

lemma indexCurrent_slot:
  assumes "indexCurrent this" and "mapNodeKeyIdx this k = Some idx"
  shows "slotKey (nodeDataArray (state this)) idx = Some k"
proof -
  from assms have "forEachSet Map.empty 0 (nodeDataArray (state this)) k = Some idx"
    by (simp add: indexCurrent_def)
  from forEachSet_sound [OF this] show ?thesis by simp
qed

lemma arrayGet_arraySet [simp]: "arrayGet (arraySet arr idx n) idx = Some n"
  by (simp add: arrayGet_def arraySet_def nth_append)

lemmas evals = constructor_def initialState_def initialNodeDataArray_def
  key_def nodeKey_def nodeTemplate_def changedSelection_def first_def
  luke_def newPerson_def selectedLuke_def arrayGet_def scenarioStore_def slotKey_def

lemma records_in_array:
  "arrayGet initialNodeDataArray 0 = Some stella" "arrayGet initialNodeDataArray 1 = Some luke"
  "arrayGet initialNodeDataArray 2 = Some meg" "arrayGet initialNodeDataArray 3 = Some peggy"
  "arrayGet initialNodeDataArray 5 = Some al" "arrayGet initialNodeDataArray 16 = Some joaquin"
  by (simp_all add: arrayGet_def initialNodeDataArray_def stella_def luke_def meg_def peggy_def
      al_def joaquin_def)

section \<open>The node index\<close>

text \<open>
  C6. After the index is rebuilt from an array whose records have distinct keys, every
  key \<open>k\<close> of a record of the array is in the index, and the position the index gives
  for it holds a record of key \<open>k\<close>.
\<close>

theorem refreshNodeIndex_resolves:
  assumes "distinct (keysOf nodeArr)" and "k \<in> set (keysOf nodeArr)"
  shows "\<exists>p n. mapNodeKeyIdx (refreshNodeIndex this nodeArr) k = Some p
           \<and> arrayGet nodeArr p = Some n \<and> key n = k"
proof -
  from forEachSet_present [OF assms(2), of Map.empty 0]
  obtain p where p: "forEachSet Map.empty 0 nodeArr k = Some p" "slotKey nodeArr p = Some k"
    by auto
  from p(2) obtain n where "arrayGet nodeArr p = Some n" "key n = k"
    by (auto simp: slotKey_def)
  with p(1) show ?thesis by simp
qed

theorem refreshNodeIndex_resolves_witness:
  "distinct (keysOf initialNodeDataArray) \<and> VNum 5 \<in> set (keysOf initialNodeDataArray)
   \<and> (\<exists>p n. mapNodeKeyIdx (refreshNodeIndex constructor initialNodeDataArray) (VNum 5) = Some p
         \<and> arrayGet initialNodeDataArray p = Some n \<and> key n = VNum 5)"
proof -
  have d: "distinct (keysOf initialNodeDataArray)"
    by (simp add: initialNodeDataArray_def key_def)
  have m: "VNum 5 \<in> set (keysOf initialNodeDataArray)"
    by (simp add: initialNodeDataArray_def key_def)
  from d m refreshNodeIndex_resolves [OF d m, of constructor] show ?thesis by blast
qed

text \<open>
  C7. After \<open>refreshNodeIndex\<close> on an array with distinct keys the index is exactly the map
  from each record's key to its position: it gives position \<open>p\<close> for key \<open>k\<close> if and only
  if slot \<open>p\<close> holds a record of key \<open>k\<close>, which makes it a bijection between the keys of
  the array and the positions that hold a record. Whatever was indexed before, a key of
  the earlier array that no record of the current array has is not in the index.
\<close>

theorem refreshNodeIndex_exact:
  "(distinct (keysOf nodeArr) \<longrightarrow>
      (mapNodeKeyIdx (refreshNodeIndex this nodeArr) k = Some p) = (slotKey nodeArr p = Some k))
   \<and> (distinct (keysOf nodeArr) \<longrightarrow>
        bij_betw (\<lambda>k. the (mapNodeKeyIdx (refreshNodeIndex this nodeArr) k))
          (set (keysOf nodeArr)) {p. slotKey nodeArr p \<noteq> None})
   \<and> (k \<in> set (keysOf prev) \<and> k \<notin> set (keysOf nodeArr) \<longrightarrow>
        mapNodeKeyIdx (refreshNodeIndex (refreshNodeIndex this prev) nodeArr) k = None)"
proof (intro conjI impI)
  assume d: "distinct (keysOf nodeArr)"
  show "(mapNodeKeyIdx (refreshNodeIndex this nodeArr) k = Some p) = (slotKey nodeArr p = Some k)"
  proof
    assume "mapNodeKeyIdx (refreshNodeIndex this nodeArr) k = Some p"
    then have "forEachSet Map.empty 0 nodeArr k = Some p" by simp
    from forEachSet_sound [OF this] show "slotKey nodeArr p = Some k" by simp
  next
    assume "slotKey nodeArr p = Some k"
    from forEachSet_distinct [OF d this, of Map.empty 0]
    show "mapNodeKeyIdx (refreshNodeIndex this nodeArr) k = Some p" by simp
  qed
next
  assume d: "distinct (keysOf nodeArr)"
  let ?ix = "forEachSet Map.empty 0 nodeArr"
  have iff: "\<And>k p. ?ix k = Some p \<longleftrightarrow> slotKey nodeArr p = Some k"
  proof
    fix k p assume "?ix k = Some p"
    from forEachSet_sound [OF this] show "slotKey nodeArr p = Some k" by simp
  next
    fix k p assume "slotKey nodeArr p = Some k"
    from forEachSet_distinct [OF d this, of Map.empty 0] show "?ix k = Some p" by simp
  qed
  have inj: "inj_on (\<lambda>k. the (?ix k)) (set (keysOf nodeArr))"
  proof (rule inj_onI)
    fix a b assume a: "a \<in> set (keysOf nodeArr)" and b: "b \<in> set (keysOf nodeArr)"
      and eq: "the (?ix a) = the (?ix b)"
    from a obtain p where p: "slotKey nodeArr p = Some a" by (auto simp: keysOf_slotKey)
    from b obtain q where q: "slotKey nodeArr q = Some b" by (auto simp: keysOf_slotKey)
    from p q have "?ix a = Some p" "?ix b = Some q" by (simp_all add: iff)
    with eq have "p = q" by simp
    with p q show "a = b" by simp
  qed
  have img: "(\<lambda>k. the (?ix k)) ` set (keysOf nodeArr) = {p. slotKey nodeArr p \<noteq> None}"
  proof (rule set_eqI)
    fix p
    show "p \<in> (\<lambda>k. the (?ix k)) ` set (keysOf nodeArr) \<longleftrightarrow> p \<in> {p. slotKey nodeArr p \<noteq> None}"
    proof
      assume "p \<in> (\<lambda>k. the (?ix k)) ` set (keysOf nodeArr)"
      then obtain a where a: "a \<in> set (keysOf nodeArr)" and pa: "p = the (?ix a)" by blast
      from a obtain q where q: "slotKey nodeArr q = Some a" by (auto simp: keysOf_slotKey)
      then have "?ix a = Some q" by (simp add: iff)
      with pa q show "p \<in> {p. slotKey nodeArr p \<noteq> None}" by simp
    next
      assume "p \<in> {p. slotKey nodeArr p \<noteq> None}"
      then obtain a where a: "slotKey nodeArr p = Some a" by auto
      then have "a \<in> set (keysOf nodeArr)" by (auto simp: keysOf_slotKey)
      moreover from a have "?ix a = Some p" by (simp add: iff)
      ultimately show "p \<in> (\<lambda>k. the (?ix k)) ` set (keysOf nodeArr)" by force
    qed
  qed
  from inj img
  show "bij_betw (\<lambda>k. the (mapNodeKeyIdx (refreshNodeIndex this nodeArr) k))
          (set (keysOf nodeArr)) {p. slotKey nodeArr p \<noteq> None}"
    by (simp add: bij_betw_def)
next
  assume "k \<in> set (keysOf prev) \<and> k \<notin> set (keysOf nodeArr)"
  then have "forEachSet Map.empty 0 nodeArr k = Map.empty k" by (simp add: forEachSet_absent)
  then show "mapNodeKeyIdx (refreshNodeIndex (refreshNodeIndex this prev) nodeArr) k = None"
    by simp
qed

theorem refreshNodeIndex_exact_witness:
  "distinct (keysOf scenarioStore)
   \<and> slotKey scenarioStore 1 = Some (VNum 2)
   \<and> mapNodeKeyIdx (refreshNodeIndex constructor scenarioStore) (VNum 2) = Some 1
   \<and> bij_betw (\<lambda>k. the (mapNodeKeyIdx (refreshNodeIndex constructor scenarioStore) k))
        (set (keysOf scenarioStore)) {p. slotKey scenarioStore p \<noteq> None}
   \<and> VNum 5 \<in> set (keysOf initialNodeDataArray) \<and> VNum 5 \<notin> set (keysOf scenarioStore)
   \<and> mapNodeKeyIdx (refreshNodeIndex (refreshNodeIndex constructor initialNodeDataArray) scenarioStore) (VNum 5) = None"
proof -
  have d: "distinct (keysOf scenarioStore)"
    by (simp add: scenarioStore_def key_def)
  have s: "slotKey scenarioStore 1 = Some (VNum 2)"
    by (simp add: scenarioStore_def slotKey_def arrayGet_def key_def)
  have a: "VNum 5 \<in> set (keysOf initialNodeDataArray)"
    by (simp add: initialNodeDataArray_def key_def)
  have b: "VNum 5 \<notin> set (keysOf scenarioStore)"
    by (simp add: scenarioStore_def key_def)
  note e1 = refreshNodeIndex_exact [of scenarioStore constructor "VNum 2" 1 initialNodeDataArray]
  note e2 = refreshNodeIndex_exact [of scenarioStore constructor "VNum 5" 0 initialNodeDataArray]
  from e1 d s have "mapNodeKeyIdx (refreshNodeIndex constructor scenarioStore) (VNum 2) = Some 1"
    by blast
  moreover from e1 d have "bij_betw (\<lambda>k. the (mapNodeKeyIdx (refreshNodeIndex constructor scenarioStore) k))
        (set (keysOf scenarioStore)) {p. slotKey scenarioStore p \<noteq> None}"
    by blast
  moreover from e2 a b have "mapNodeKeyIdx (refreshNodeIndex (refreshNodeIndex constructor initialNodeDataArray) scenarioStore) (VNum 5) = None"
    by blast
  ultimately show ?thesis using d s a b by blast
qed

section \<open>The index stays current\<close>

text \<open>
  The constructor builds the index from the initial array, and neither handler changes
  which key stands at which position: a committed edit writes the working copy to the
  position the index gives for the working copy's own key.
\<close>

lemma indexCurrent_constructor: "indexCurrent constructor"
  by (simp add: indexCurrent_def constructor_def)

lemma indexCurrent_handleDiagramEvent:
  assumes "indexCurrent this" and "handleDiagramEvent this e = Inr this'"
  shows "indexCurrent this'"
  using assms
  by (auto simp: indexCurrent_def handleDiagramEvent_def setState_def selectionRecipe_def
      split: if_splits option.splits Part.splits)

lemma map_slotKey_arraySet:
  assumes "slotKey arr idx = Some (key n)"
  shows "map (map_option key) (arraySet arr idx n) = map (map_option key) arr"
proof -
  from assms have lt: "idx < length arr" and "map (map_option key) arr ! idx = Some (key n)"
    by (auto simp: slotKey_def arrayGet_def split: if_splits)
  then have "(map (map_option key) arr)[idx := Some (key n)] = map (map_option key) arr"
    by (metis list_update_id)
  with lt show ?thesis
    by (simp add: arraySet_def map_update)
qed

lemma indexCurrent_handleInputChange:
  assumes "indexCurrent this" and "handleInputChange this path val isBlur = Inr this'"
  shows "indexCurrent this'"
proof (cases "selectedData (state this)")
  case Null
  with assms(2) show ?thesis by (simp add: handleInputChange_def setState_def inputRecipe_def)
next
  case Undefined
  with assms(2) show ?thesis by (simp add: handleInputChange_def setState_def inputRecipe_def)
next
  case (Data d)
  let ?data = "setProperty d path (VStr val)"
  show ?thesis
  proof (cases "isBlur \<and> mapNodeKeyIdx this (key ?data) \<noteq> None")
    case False
    with Data assms show ?thesis
      by (auto simp: indexCurrent_def handleInputChange_def setState_def inputRecipe_def Let_def
          split: if_splits)
  next
    case True
    then obtain idx where idx: "mapNodeKeyIdx this (key ?data) = Some idx" by auto
    from indexCurrent_slot [OF assms(1) idx]
    have "map (map_option key) (arraySet (nodeDataArray (state this)) idx ?data)
        = map (map_option key) (nodeDataArray (state this))"
      by (rule map_slotKey_arraySet)
    then have "forEachSet Map.empty 0 (arraySet (nodeDataArray (state this)) idx ?data)
        = forEachSet Map.empty 0 (nodeDataArray (state this))"
      by (rule forEachSet_cong)
    with Data True idx assms show ?thesis
      by (auto simp: indexCurrent_def handleInputChange_def setState_def inputRecipe_def Let_def
          split: if_splits)
  qed
qed

lemma indexCurrent_selectedLuke: "indexCurrent selectedLuke"
  by (simp add: indexCurrent_def selectedLuke_def constructor_def)

lemma sel_luke: "selectedData (state selectedLuke) = Data luke"
  by (simp add: selectedLuke_def)

section \<open>Selection changes\<close>

text \<open>
  C1. On a \<open>ChangedSelection\<close> event, with the index current: when the first selected part
  is a node whose key is the key of a record of the node array, \<open>selectedData\<close> becomes
  the record at the position the index gives for that key, a record of that key; when the
  selection is empty, \<open>selectedData\<close> becomes \<open>null\<close>; when the first selected part is a
  link or any other part that is not a node, the application is exactly as before, and so
  is \<open>selectedData\<close>.
\<close>

theorem handleDiagramEvent_ChangedSelection:
  assumes "name e = ''ChangedSelection''" and "indexCurrent this"
  shows "(first (subject e) = Some (Node nd)
            \<and> nodeKey nd \<in> set (keysOf (nodeDataArray (state this))) \<longrightarrow>
          (\<exists>idx n. mapNodeKeyIdx this (nodeKey nd) = Some idx
             \<and> arrayGet (nodeDataArray (state this)) idx = Some n \<and> key n = nodeKey nd
             \<and> handleDiagramEvent this e = Inr (this\<lparr>state := (state this)\<lparr>selectedData := Data n\<rparr>\<rparr>)))
       \<and> (first (subject e) = None \<longrightarrow>
            handleDiagramEvent this e = Inr (this\<lparr>state := (state this)\<lparr>selectedData := Null\<rparr>\<rparr>))
       \<and> (first (subject e) = Some part \<and> \<not> isNode part \<longrightarrow>
            handleDiagramEvent this e = Inr this)"
proof (intro conjI impI)
  assume a: "first (subject e) = Some (Node nd)
      \<and> nodeKey nd \<in> set (keysOf (nodeDataArray (state this)))"
  let ?arr = "nodeDataArray (state this)"
  from a forEachSet_present [of "nodeKey nd" ?arr Map.empty 0]
  obtain p where p: "forEachSet Map.empty 0 ?arr (nodeKey nd) = Some p"
      "slotKey ?arr p = Some (nodeKey nd)"
    by auto
  from p(1) assms(2) have ix: "mapNodeKeyIdx this (nodeKey nd) = Some p"
    by (simp add: indexCurrent_def)
  from p(2) obtain n where n: "arrayGet ?arr p = Some n" "key n = nodeKey nd"
    by (auto simp: slotKey_def)
  from a ix n assms(1)
  have "handleDiagramEvent this e = Inr (this\<lparr>state := (state this)\<lparr>selectedData := Data n\<rparr>\<rparr>)"
    by (simp add: handleDiagramEvent_def setState_def selectionRecipe_def)
  with ix n
  show "\<exists>idx n. mapNodeKeyIdx this (nodeKey nd) = Some idx
          \<and> arrayGet ?arr idx = Some n \<and> key n = nodeKey nd
          \<and> handleDiagramEvent this e = Inr (this\<lparr>state := (state this)\<lparr>selectedData := Data n\<rparr>\<rparr>)"
    by blast
next
  assume "first (subject e) = None"
  with assms(1)
  show "handleDiagramEvent this e = Inr (this\<lparr>state := (state this)\<lparr>selectedData := Null\<rparr>\<rparr>)"
    by (simp add: handleDiagramEvent_def setState_def selectionRecipe_def)
next
  assume a: "first (subject e) = Some part \<and> \<not> isNode part"
  with assms(1) show "handleDiagramEvent this e = Inr this"
    by (cases part) (simp_all add: handleDiagramEvent_def setState_def selectionRecipe_def)
qed

theorem handleDiagramEvent_ChangedSelection_witness:
  "handleDiagramEvent constructor (changedSelection [Node (nodeTemplate luke [])])
     = Inr (constructor\<lparr>state := (state constructor)\<lparr>selectedData := Data luke\<rparr>\<rparr>)
   \<and> handleDiagramEvent selectedLuke (changedSelection [])
     = Inr (selectedLuke\<lparr>state := (state selectedLuke)\<lparr>selectedData := Null\<rparr>\<rparr>)
   \<and> handleDiagramEvent selectedLuke (changedSelection [Link (Some (nodeTemplate luke []))])
     = Inr selectedLuke"
proof -
  let ?e1 = "changedSelection [Node (nodeTemplate luke [])]"
  let ?e2 = "changedSelection ([] :: Part list)"
  let ?e3 = "changedSelection [Link (Some (nodeTemplate luke []))]"
  have n: "\<And>sel. name (changedSelection sel) = ''ChangedSelection''"
    by (simp add: changedSelection_def)
  have k: "nodeKey (nodeTemplate luke []) = VNum 2"
    by (simp add: nodeKey_def nodeTemplate_def key_def luke_def)
  have f1: "first (subject ?e1) = Some (Node (nodeTemplate luke []))
      \<and> nodeKey (nodeTemplate luke []) \<in> set (keysOf (nodeDataArray (state constructor)))"
    unfolding k by (simp add: evals refreshNodeIndex_def)
  have ix: "mapNodeKeyIdx constructor (VNum 2) = Some 1" by (simp add: evals)
  have g: "arrayGet (nodeDataArray (state constructor)) 1 = Some luke"
    by (simp add: evals refreshNodeIndex_def)
  from handleDiagramEvent_ChangedSelection [OF n indexCurrent_constructor, of "[Node (nodeTemplate luke [])]" "nodeTemplate luke []"] f1
  obtain idx r where "mapNodeKeyIdx constructor (nodeKey (nodeTemplate luke [])) = Some idx"
    "arrayGet (nodeDataArray (state constructor)) idx = Some r"
    "handleDiagramEvent constructor ?e1 = Inr (constructor\<lparr>state := (state constructor)\<lparr>selectedData := Data r\<rparr>\<rparr>)"
    by blast
  with k ix g have c1: "handleDiagramEvent constructor ?e1
     = Inr (constructor\<lparr>state := (state constructor)\<lparr>selectedData := Data luke\<rparr>\<rparr>)"
    by simp
  have f2: "first (subject ?e2) = None" by (simp add: changedSelection_def first_def)
  from handleDiagramEvent_ChangedSelection [OF n indexCurrent_selectedLuke, of "[]"] f2
  have c2: "handleDiagramEvent selectedLuke ?e2
     = Inr (selectedLuke\<lparr>state := (state selectedLuke)\<lparr>selectedData := Null\<rparr>\<rparr>)"
    by blast
  have f3: "first (subject ?e3) = Some (Link (Some (nodeTemplate luke [])))
      \<and> \<not> isNode (Link (Some (nodeTemplate luke [])))"
    by (simp add: changedSelection_def first_def)
  from handleDiagramEvent_ChangedSelection [OF n indexCurrent_selectedLuke, of "[Link (Some (nodeTemplate luke []))]" _ "Link (Some (nodeTemplate luke []))"] f3
  have c3: "handleDiagramEvent selectedLuke ?e3 = Inr selectedLuke"
    by blast
  from c1 c2 c3 show ?thesis by blast
qed

text \<open>
  C9. On a \<open>ChangedSelection\<close> event whose first selected part is a node with a key that
  is not in the index, the handler returns normally and changes nothing: \<open>selectedData\<close>
  is neither replaced nor cleared.
\<close>

theorem handleDiagramEvent_key_absent:
  assumes "name e = ''ChangedSelection''"
    and "first (subject e) = Some (Node nd)"
    and "mapNodeKeyIdx this (nodeKey nd) = None"
  shows "handleDiagramEvent this e = Inr this"
  using assms by (simp add: handleDiagramEvent_def setState_def selectionRecipe_def)

theorem handleDiagramEvent_key_absent_witness:
  "mapNodeKeyIdx selectedLuke (nodeKey (nodeTemplate newPerson [])) = None
   \<and> handleDiagramEvent selectedLuke (changedSelection [Node (nodeTemplate newPerson [])])
       = Inr selectedLuke"
proof -
  have a: "mapNodeKeyIdx selectedLuke (nodeKey (nodeTemplate newPerson [])) = None"
    by (simp add: evals refreshNodeIndex_def)
  have n: "name (changedSelection [Node (nodeTemplate newPerson [])]) = ''ChangedSelection''"
    by (simp add: changedSelection_def)
  have f: "first (subject (changedSelection [Node (nodeTemplate newPerson [])]))
      = Some (Node (nodeTemplate newPerson []))"
    by (simp add: changedSelection_def first_def)
  from a handleDiagramEvent_key_absent [OF n f a] show ?thesis by blast
qed

section \<open>Inspector edits\<close>

lemma setProperty_key: "path \<noteq> ''key'' \<Longrightarrow> key (setProperty d path v) = key d"
  by (simp add: setProperty_def key_def)

lemma setProperty_own: "path \<noteq> ''__proto__'' \<Longrightarrow> setProperty d path v path = Some v"
  by (simp add: setProperty_def)

text \<open>
  C3, as the code has it. An edit that is not final, arriving while a record is selected,
  returns normally and the node array is the one from before the edit. The working copy in
  \<open>selectedData\<close> is the selected record after the write \<open>data[path] = value\<close>: for every
  path other than \<open>__proto__\<close> its own field at the path is the new value.
\<close>

theorem handleInputChange_live:
  assumes "selectedData (state this) = Data d"
  shows "\<exists>this'. handleInputChange this path val False = Inr this'
           \<and> selectedData (state this') = Data (setProperty d path (VStr val))
           \<and> (path \<noteq> ''__proto__'' \<longrightarrow> setProperty d path (VStr val) path = Some (VStr val))
           \<and> nodeDataArray (state this') = nodeDataArray (state this)"
  using assms
  by (simp add: handleInputChange_def setState_def inputRecipe_def setProperty_own Let_def)

theorem handleInputChange_live_witness:
  "selectedData (state selectedLuke) = Data luke
   \<and> (\<exists>this'. handleInputChange selectedLuke ''name'' ''Bob'' False = Inr this'
         \<and> selectedData (state this') = Data (luke(''name'' \<mapsto> VStr ''Bob''))
         \<and> (luke(''name'' \<mapsto> VStr ''Bob'')) ''name'' = Some (VStr ''Bob'')
         \<and> nodeDataArray (state this') = nodeDataArray (state selectedLuke))"
proof -
  have w: "setProperty luke ''name'' (VStr ''Bob'') = luke(''name'' \<mapsto> VStr ''Bob'')"
    by (simp add: setProperty_def)
  from sel_luke handleInputChange_live [OF sel_luke, of "''name''" "''Bob''"] show ?thesis
    unfolding w by simp
qed

text \<open>
  The claim C3 as it is written fails for the path \<open>__proto__\<close>: the write of a string
  there is dropped, the handler returns the application as it was, and the working copy
  has no field of that name.
\<close>

theorem handleInputChange_live_counterexample:
  "selectedData (state selectedLuke) = Data luke
   \<and> handleInputChange selectedLuke ''__proto__'' ''Bob'' False = Inr selectedLuke
   \<and> luke ''__proto__'' = None"
  by (simp add: handleInputChange_def setState_def inputRecipe_def setProperty_def Let_def
      selectedLuke_def luke_def)

text \<open>
  C5. A final edit whose working copy has a key that is not in the index returns
  normally and leaves the node array, the index and the update flag as they were.
\<close>

theorem handleInputChange_key_not_found:
  assumes "selectedData (state this) = Data d"
    and "mapNodeKeyIdx this (key (setProperty d path (VStr val))) = None"
  shows "\<exists>this'. handleInputChange this path val True = Inr this'
           \<and> nodeDataArray (state this') = nodeDataArray (state this)
           \<and> mapNodeKeyIdx this' = mapNodeKeyIdx this
           \<and> skipsDiagramUpdate (state this') = skipsDiagramUpdate (state this)"
  using assms by (simp add: handleInputChange_def setState_def inputRecipe_def Let_def)

theorem handleInputChange_key_not_found_witness:
  "selectedData (state selectedLuke) = Data luke
   \<and> key (setProperty luke ''key'' (VStr ''x'')) = VStr ''x''
   \<and> mapNodeKeyIdx selectedLuke (VStr ''x'') = None
   \<and> (\<exists>this'. handleInputChange selectedLuke ''key'' ''x'' True = Inr this'
         \<and> nodeDataArray (state this') = nodeDataArray (state selectedLuke)
         \<and> mapNodeKeyIdx this' = mapNodeKeyIdx selectedLuke
         \<and> skipsDiagramUpdate (state this') = skipsDiagramUpdate (state selectedLuke))"
proof -
  have k: "key (setProperty luke ''key'' (VStr ''x'')) = VStr ''x''"
    by (simp add: key_def setProperty_def)
  have a: "mapNodeKeyIdx selectedLuke (VStr ''x'') = None"
    by (simp add: evals refreshNodeIndex_def)
  from a k have a': "mapNodeKeyIdx selectedLuke (key (setProperty luke ''key'' (VStr ''x''))) = None"
    by simp
  from sel_luke k a handleInputChange_key_not_found [OF sel_luke a'] show ?thesis by blast
qed

text \<open>
  C4, as the code has it. An edit that arrives while \<open>selectedData\<close> is \<open>null\<close> does not
  return normally: the write to a property of \<open>null\<close> throws a \<open>TypeError\<close>, and no new
  state is published. In that state the inspector, which sends the edits, is not rendered.
\<close>

theorem handleInputChange_no_selection:
  assumes "selectedData (state this) = Null"
  shows "handleInputChange this path val isBlur = Inl TypeError \<and> \<not> rendersInspector this"
  using assms
  by (simp add: handleInputChange_def setState_def inputRecipe_def rendersInspector_def)

theorem handleInputChange_no_selection_witness:
  "selectedData (state constructor) = Null
   \<and> handleInputChange constructor ''title'' ''CTO'' False = Inl TypeError
   \<and> \<not> rendersInspector constructor"
proof -
  have a: "selectedData (state constructor) = Null"
    by (simp add: constructor_def initialState_def)
  from a handleInputChange_no_selection [OF a] show ?thesis by blast
qed

text \<open>
  The claim C4 as it is written fails on the freshly constructed application, where nothing
  is selected: the final edit of the name ends in the \<open>TypeError\<close>.
\<close>

theorem handleInputChange_no_selection_counterexample:
  "selectedData (state constructor) = Null
   \<and> handleInputChange constructor ''name'' ''Bob'' True = Inl TypeError"
  by (simp add: handleInputChange_def setState_def inputRecipe_def constructor_def initialState_def)

text \<open>
  C2, as the code has it. A final edit of a path other than \<open>key\<close>, arriving while a
  record of key \<open>k\<close> is selected and \<open>k\<close> is in the index at position \<open>idx\<close>, returns
  normally; afterwards slot \<open>idx\<close> of the node array holds the working copy, which is the
  selected record after the write \<open>data[path] = value\<close> (for every path other than
  \<open>__proto__\<close> its own field at the path is the new value), \<open>skipsDiagramUpdate\<close> is
  \<open>false\<close> (the diagram is to take the state it is given), and the index still gives
  \<open>idx\<close> for \<open>k\<close>, a slot that holds a record of key \<open>k\<close>.
\<close>

theorem handleInputChange_commit:
  assumes "selectedData (state this) = Data d" and "key d = k"
    and "mapNodeKeyIdx this k = Some idx" and "path \<noteq> ''key''"
  shows "\<exists>this'. handleInputChange this path val True = Inr this'
           \<and> selectedData (state this') = Data (setProperty d path (VStr val))
           \<and> arrayGet (nodeDataArray (state this')) idx = Some (setProperty d path (VStr val))
           \<and> (path \<noteq> ''__proto__'' \<longrightarrow> setProperty d path (VStr val) path = Some (VStr val))
           \<and> skipsDiagramUpdate (state this') = False
           \<and> mapNodeKeyIdx this' k = Some idx
           \<and> slotKey (nodeDataArray (state this')) idx = Some k"
proof -
  from assms(2,4) have k: "key (setProperty d path (VStr val)) = k"
    by (simp add: setProperty_key)
  with assms(1,3) show ?thesis
    by (simp add: handleInputChange_def setState_def inputRecipe_def slotKey_def Let_def
        setProperty_own)
qed

theorem handleInputChange_commit_witness:
  "selectedData (state selectedLuke) = Data luke \<and> key luke = VNum 2
   \<and> mapNodeKeyIdx selectedLuke (VNum 2) = Some 1
   \<and> (\<exists>this'. handleInputChange selectedLuke ''name'' ''Bob'' True = Inr this'
         \<and> selectedData (state this') = Data (luke(''name'' \<mapsto> VStr ''Bob''))
         \<and> arrayGet (nodeDataArray (state this')) 1 = Some (luke(''name'' \<mapsto> VStr ''Bob''))
         \<and> (luke(''name'' \<mapsto> VStr ''Bob'')) ''name'' = Some (VStr ''Bob'')
         \<and> skipsDiagramUpdate (state this') = False
         \<and> mapNodeKeyIdx this' (VNum 2) = Some 1
         \<and> slotKey (nodeDataArray (state this')) 1 = Some (VNum 2))"
proof -
  have k: "key luke = VNum 2" by (simp add: luke_def key_def)
  have ix: "mapNodeKeyIdx selectedLuke (VNum 2) = Some 1"
    by (simp add: evals refreshNodeIndex_def)
  have p: "''name'' \<noteq> ''key''" by simp
  have w: "setProperty luke ''name'' (VStr ''Bob'') = luke(''name'' \<mapsto> VStr ''Bob'')"
    by (simp add: setProperty_def)
  from sel_luke k ix handleInputChange_commit [OF sel_luke k ix p, of "''Bob''"]
  show ?thesis unfolding w by simp
qed

text \<open>
  The claim C2 as it is written fails for the path \<open>key\<close>: the edit changes the working
  copy's key first, the lookup is made with the new key, which the index does not have,
  and the record at the position of the selected key is not overwritten. Its \<open>key\<close> is
  still the number 2, not the new value. It fails for the path \<open>__proto__\<close> too: the
  write is dropped, so the record that is written back has no field of that name.
\<close>

theorem handleInputChange_commit_counterexample:
  "selectedData (state selectedLuke) = Data luke
   \<and> mapNodeKeyIdx selectedLuke (key luke) = Some 1
   \<and> handleInputChange selectedLuke ''key'' ''x'' True
       = Inr (selectedLuke\<lparr>state := (state selectedLuke)\<lparr>selectedData := Data (luke(''key'' \<mapsto> VStr ''x''))\<rparr>\<rparr>)
   \<and> arrayGet (nodeDataArray (state (selectedLuke\<lparr>state := (state selectedLuke)\<lparr>selectedData := Data (luke(''key'' \<mapsto> VStr ''x''))\<rparr>\<rparr>))) 1
       = Some luke
   \<and> luke ''key'' = Some (VNum 2)
   \<and> handleInputChange selectedLuke ''__proto__'' ''x'' True = Inr selectedLuke
   \<and> arrayGet (nodeDataArray (state selectedLuke)) 1 = Some luke
   \<and> luke ''__proto__'' = None"
proof -
  have a: "mapNodeKeyIdx selectedLuke (VStr ''x'') = None"
    by (simp add: evals refreshNodeIndex_def)
  have b: "key (setProperty luke ''key'' (VStr ''x'')) = VStr ''x''"
    by (simp add: key_def setProperty_def)
  have w: "setProperty luke ''key'' (VStr ''x'') = luke(''key'' \<mapsto> VStr ''x'')"
    by (simp add: setProperty_def)
  have c: "handleInputChange selectedLuke ''key'' ''x'' True
       = Inr (selectedLuke\<lparr>state := (state selectedLuke)\<lparr>selectedData := Data (luke(''key'' \<mapsto> VStr ''x''))\<rparr>\<rparr>)"
    using a b sel_luke
    by (simp add: handleInputChange_def setState_def inputRecipe_def Let_def w)
  have d: "mapNodeKeyIdx selectedLuke (key luke) = Some 1"
    by (simp add: evals refreshNodeIndex_def)
  have e: "arrayGet (nodeDataArray (state (selectedLuke\<lparr>state := (state selectedLuke)\<lparr>selectedData := Data (luke(''key'' \<mapsto> VStr ''x''))\<rparr>\<rparr>))) 1
       = Some luke"
    by (simp add: evals refreshNodeIndex_def)
  have f: "luke ''key'' = Some (VNum 2)" by (simp add: luke_def)
  have g: "arrayGet (nodeDataArray (state selectedLuke)) 1 = Some luke"
    by (simp add: evals refreshNodeIndex_def)
  have u: "arraySet (nodeDataArray (state selectedLuke)) 1 luke = nodeDataArray (state selectedLuke)"
    by (simp add: arraySet_def selectedLuke_def constructor_def initialState_def
        initialNodeDataArray_def luke_def)
  have h: "handleInputChange selectedLuke ''__proto__'' ''x'' True = Inr selectedLuke"
    using d sel_luke u
    by (simp add: handleInputChange_def setState_def inputRecipe_def Let_def setProperty_def
        selectedLuke_def constructor_def initialState_def)
  have n: "luke ''__proto__'' = None" by (simp add: luke_def)
  from sel_luke c d e f g h n show ?thesis by blast
qed

section \<open>Deleting the selection\<close>

lemma clearBosses_stop:
  "\<forall>c \<in> set visited. findObject c ''boss'' \<noteq> None \<Longrightarrow> findObject child ''boss'' = None \<Longrightarrow>
     clearBosses (visited @ child # rest)
       = (map (\<lambda>c. setText c ''boss'' []) visited @ child # rest, False)"
  by (induction visited) auto

lemma findObject_setText [simp]: "findObject (setText nd oname t) oname = Some t"
  by (simp add: findObject_def setText_def)

lemma data_setText [simp]: "data (setText nd oname t) = data nd"
  by (simp add: setText_def)

text \<open>
  Whatever the records are, a node built from the template whose first child is built
  from the template makes the listener return at that child.
\<close>

lemma selectionDeleting_nodeTemplate:
  "selectionDeleting myDiagram
     (selectionDeletingEvent [Node (nodeTemplate d (nodeTemplate d' cs' # cs))])
   = (Returned, startTransaction myDiagram ''clear boss'',
      Some (Node (nodeTemplate d (nodeTemplate d' cs' # cs))))"
  by (simp add: selectionDeleting_def selectionDeletingEvent_def first_def nodeTemplate_def
      findObject_def)

text \<open>
  C8, at the deletion of the node of key 2, whose tree children are the nodes of keys 3
  and 6. Like every node of this diagram they are built from the one node template, which
  has no object named \<open>boss\<close>. The listener starts the transaction \<open>clear boss\<close> inside the
  engine's \<open>Delete\<close>, finds no such object at the first child and returns there: no text
  of a child is cleared, and \<open>clear boss\<close> is left started. The data records, with their
  \<open>parent\<close> fields, are as they were.
\<close>

theorem selectionDeleting_template_children:
  "selectionDeleting deletingDiagram
     (selectionDeletingEvent [Node (nodeTemplate luke [nodeTemplate meg [], nodeTemplate al []])])
   = (Returned,
      \<lparr>nestedTransactionNames = [''clear boss'', ''Delete''], committedTransactions = []\<rparr>,
      Some (Node (nodeTemplate luke [nodeTemplate meg [], nodeTemplate al []])))"
  by (simp add: selectionDeleting_def selectionDeletingEvent_def first_def nodeTemplate_def
      findObject_def deletingDiagram_def startTransaction_def)

text \<open>
  C10. When, going through the children of the deleted node, the listener meets a child
  with no object named \<open>boss\<close>, it returns there: the children before it have their text
  cleared, that child and the children after it are unchanged, and the transaction
  \<open>clear boss\<close> is left started and is not among the committed ones.
\<close>

theorem selectionDeleting_returns_at_missing_boss:
  assumes "first (subject e) = Some (Node nd)"
    and "treeChildren nd = visited @ child # rest"
    and "\<forall>c \<in> set visited. findObject c ''boss'' \<noteq> None"
    and "findObject child ''boss'' = None"
  shows "selectionDeleting myDiagram e =
           (Returned,
            startTransaction myDiagram ''clear boss'',
            Some (Node (GoNode (data nd) (objects nd)
              (map (\<lambda>c. setText c ''boss'' []) visited @ child # rest))))
       \<and> nestedTransactionNames (startTransaction myDiagram ''clear boss'')
            = ''clear boss'' # nestedTransactionNames myDiagram
       \<and> committedTransactions (startTransaction myDiagram ''clear boss'')
            = committedTransactions myDiagram"
  using assms by (simp add: selectionDeleting_def clearBosses_stop startTransaction_def)

theorem selectionDeleting_returns_at_missing_boss_witness:
  "selectionDeleting idleDiagram
     (selectionDeletingEvent
        [Node (nodeTemplate stella
           [withBoss ''Boss: 1'' (nodeTemplate luke []), nodeTemplate peggy [],
            withBoss ''Boss: 1'' (nodeTemplate joaquin [])])])
   = (Returned,
      \<lparr>nestedTransactionNames = [''clear boss''], committedTransactions = []\<rparr>,
      Some (Node (nodeTemplate stella
           [withBoss [] (nodeTemplate luke []), nodeTemplate peggy [],
            withBoss ''Boss: 1'' (nodeTemplate joaquin [])])))"
proof -
  let ?cs = "[withBoss ''Boss: 1'' (nodeTemplate luke []), nodeTemplate peggy [],
            withBoss ''Boss: 1'' (nodeTemplate joaquin [])]"
  let ?nd = "nodeTemplate stella ?cs"
  have f: "first (subject (selectionDeletingEvent [Node ?nd])) = Some (Node ?nd)"
    by (simp add: selectionDeletingEvent_def first_def)
  have c: "treeChildren ?nd = [withBoss ''Boss: 1'' (nodeTemplate luke [])] @ nodeTemplate peggy []
      # [withBoss ''Boss: 1'' (nodeTemplate joaquin [])]"
    by (simp add: nodeTemplate_def)
  have v: "\<forall>c \<in> set [withBoss ''Boss: 1'' (nodeTemplate luke [])]. findObject c ''boss'' \<noteq> None"
    by (simp add: withBoss_def)
  have n: "findObject (nodeTemplate peggy []) ''boss'' = None"
    by (simp add: nodeTemplate_def findObject_def)
  from selectionDeleting_returns_at_missing_boss [OF f c v n, of idleDiagram]
  show ?thesis
    by (simp add: nodeTemplate_def withBoss_def setText_def idleDiagram_def startTransaction_def)
qed

end
